theory Spec2Isabelle
  imports Complex_Main "HOL-Library.Extended_Nat"
begin

section \<open>Payloads, points and exceptions\<close>

text \<open>
  A payload is a Python dict from field names to values. The values the pipeline stores
  are strings (\<open>file_name\<close>, \<open>page_label\<close>, \<open>text\<close>, ...) and integers (\<open>file_size\<close>).
  Strings are taken over single-byte characters. A stored point may have no payload at
  all (\<open>point.payload\<close> is \<open>None\<close>).
\<close>

datatype pvalue = PStr string | PInt int

type_synonym payload = "string \<rightharpoonup> pvalue"

record point =
  point_id :: nat
  payload :: "payload option"

text \<open>
  Exceptions are values. \<open>HTTPException\<close> carries a status code and a detail; the detail
  is either a message or \<open>str(e)\<close> of another exception, kept symbolic.
\<close>

datatype error =
    ConnectionError
  | EmbeddingError
  | AttributeError
  | TypeError
  | KeyError
  | IndexError
  | ValueError
  | FileNotFoundError
  | HTTPException nat detail
and detail = Detail string | StrOf error

text \<open>A logged line: \<open>logger.error(f"<prefix>: {e}")\<close>.\<close>

datatype log_entry = LogError string error

text \<open>
  Running a comprehension or a loop body over a list: the first exception aborts the
  whole traversal, and nothing built so far is returned.
\<close>

fun collect :: "('a \<Rightarrow> error + 'b) \<Rightarrow> 'a list \<Rightarrow> error + 'b list" where
  "collect f [] = Inr []"
| "collect f (x # xs) =
     (case f x of
        Inl e \<Rightarrow> Inl e
      | Inr y \<Rightarrow> (case collect f xs of Inl e \<Rightarrow> Inl e | Inr ys \<Rightarrow> Inr (y # ys)))"

section \<open>The vector store\<close>

text \<open>
  Modelled from the spec: the vector store is a remote service reached through its
  client, and its query engine is not among the sources. What the repository sends is
  the request; what the store does with it follows the wire contract: every prefetch
  ranks, under its vector field, the points of the collection that satisfy the filter of
  the request and keeps its own limit; the rankings are fused by Reciprocal Rank Fusion;
  the fused list is cut at the limit of the request itself. A request that names no
  limit gets the default of the client's \<open>query_points\<close>, which is 10. The similarity
  values, the constant of the fusion and the failures of the service are parameters.
\<close>

datatype qvector = SparseVector "nat list" "rat list" | DenseVector "rat list"

record prefetch =
  pf_query :: qvector
  pf_using :: string
  pf_limit :: nat

datatype fusion = RRF | DBSF

type_synonym qfilter = "payload \<Rightarrow> bool"

record query_request =
  rq_prefetch :: "prefetch list"
  rq_query_filter :: "qfilter option"
  rq_query :: fusion
  rq_limit :: "nat option"

record vstore =
  st_points :: "point list"
  st_similarity :: "string \<Rightarrow> qvector \<Rightarrow> point \<Rightarrow> rat"
  st_outage :: "error option"
  st_rejects :: "point list \<Rightarrow> bool"
  st_rrf_k :: nat

definition default_query_limit :: nat where
  "default_query_limit = 10"

definition payload_of :: "point \<Rightarrow> payload" where
  "payload_of p = (case payload p of None \<Rightarrow> Map.empty | Some pl \<Rightarrow> pl)"

definition eligible :: "qfilter option \<Rightarrow> point \<Rightarrow> bool" where
  "eligible flt p = (case flt of None \<Rightarrow> True | Some f \<Rightarrow> f (payload_of p))"

definition run_prefetch :: "vstore \<Rightarrow> qfilter option \<Rightarrow> prefetch \<Rightarrow> point list" where
  "run_prefetch st flt pf =
     take (pf_limit pf)
       (sort_key (\<lambda>p. - st_similarity st (pf_using pf) (pf_query pf) p)
          (filter (eligible flt) (st_points st)))"

text \<open>The rank of a point in a ranking, counted from 1, by point identifier.\<close>

fun rank_in :: "nat \<Rightarrow> point list \<Rightarrow> nat option" where
  "rank_in i [] = None"
| "rank_in i (p # ps) =
     (if point_id p = i then Some 1 else map_option Suc (rank_in i ps))"

definition rrf_score :: "nat \<Rightarrow> point list list \<Rightarrow> point \<Rightarrow> rat" where
  "rrf_score k rankings p =
     sum_list (map (\<lambda>r. case rank_in (point_id p) r of
                           None \<Rightarrow> 0
                         | Some i \<Rightarrow> 1 / of_nat (i + k)) rankings)"

text \<open>Every candidate once: the first occurrence of each identifier.\<close>

fun candidates :: "nat list \<Rightarrow> point list \<Rightarrow> point list" where
  "candidates seen [] = []"
| "candidates seen (p # ps) =
     (if point_id p \<in> set seen then candidates seen ps
      else p # candidates (point_id p # seen) ps)"

definition fuse_rrf :: "nat \<Rightarrow> point list list \<Rightarrow> point list" where
  "fuse_rrf k rankings =
     sort_key (\<lambda>p. - rrf_score k rankings p) (candidates [] (concat rankings))"

text \<open>
  Modelled from the spec: the answer of the store to a fused query, or the exception of
  the round trip.
\<close>

definition query_points :: "vstore \<Rightarrow> query_request \<Rightarrow> error + point list" where
  "query_points st rq =
     (case st_outage st of
        Some e \<Rightarrow> Inl e
      | None \<Rightarrow>
          Inr (take (case rq_limit rq of None \<Rightarrow> default_query_limit | Some n \<Rightarrow> n)
                 (fuse_rrf (st_rrf_k st)
                    (map (run_prefetch st (rq_query_filter rq)) (rq_prefetch rq)))))"

text \<open>\<open>client.scroll(limit=n, with_payload=True)\<close>: the first \<open>n\<close> points, or an exception.\<close>

definition scroll :: "vstore \<Rightarrow> nat \<Rightarrow> error + point list" where
  "scroll st n =
     (case st_outage st of Some e \<Rightarrow> Inl e | None \<Rightarrow> Inr (take n (st_points st)))"

section \<open>Hybrid retrieval (hybrid\_retrieval.py)\<close>

record hybrid_search =
  embedding_model :: "string \<Rightarrow> error + rat list"
  sparse_embedding_model :: "string \<Rightarrow> error + nat list \<times> rat list"
  qdrant_client :: vstore

text \<open>The request that \<open>query_hybrid_search\<close> builds. It names no limit of its own.\<close>

definition hybrid_request ::
  "rat list \<Rightarrow> nat list \<times> rat list \<Rightarrow> qfilter option \<Rightarrow> nat \<Rightarrow> query_request" where
  "hybrid_request dense_query sparse_query metadata_filter limit =
     \<lparr> rq_prefetch =
         [ \<lparr> pf_query = SparseVector (fst sparse_query) (snd sparse_query),
             pf_using = ''sparse'', pf_limit = limit \<rparr>,
           \<lparr> pf_query = DenseVector dense_query,
             pf_using = ''dense'', pf_limit = limit \<rparr> ],
       rq_query_filter = metadata_filter,
       rq_query = RRF,
       rq_limit = None \<rparr>"

text \<open>\<open>point.payload["text"]\<close>\<close>

definition point_text :: "point \<Rightarrow> error + pvalue" where
  "point_text p =
     (case payload p of
        None \<Rightarrow> Inl TypeError
      | Some pl \<Rightarrow> (case pl ''text'' of None \<Rightarrow> Inl KeyError | Some v \<Rightarrow> Inr v))"

text \<open>
  The result is paired with the requests sent to the store during the call, in order.
\<close>

definition query_hybrid_search ::
  "hybrid_search \<Rightarrow> string \<Rightarrow> qfilter option \<Rightarrow> nat \<Rightarrow>
     query_request list \<times> (error + pvalue list)" where
  "query_hybrid_search self query metadata_filter limit =
     (case embedding_model self query of
        Inl e \<Rightarrow> ([], Inl e)
      | Inr dense_query \<Rightarrow>
          (case sparse_embedding_model self query of
             Inl e \<Rightarrow> ([], Inl e)
           | Inr sparse_query \<Rightarrow>
               (let rq = hybrid_request dense_query sparse_query metadata_filter limit
                in ([rq],
                    case query_points (qdrant_client self) rq of
                      Inl e \<Rightarrow> Inl e
                    | Inr pts \<Rightarrow> collect point_text pts))))"

text \<open>
  What a filtered search is compared with: the same store holding only the points whose
  payload satisfies the filter.
\<close>

definition restricted_to :: "qfilter \<Rightarrow> vstore \<Rightarrow> vstore" where
  "restricted_to flt st = st\<lparr>st_points := filter (\<lambda>p. flt (payload_of p)) (st_points st)\<rparr>"

section \<open>Document statistics (main.py)\<close>

record document_stats =
  ds_client :: vstore
  ds_hybrid_search :: hybrid_search

text \<open>
  \<open>search_documents\<close> calls the hybrid search with no metadata filter and swallows every
  exception. The result is paired with the lines logged.
\<close>

definition search_documents ::
  "document_stats \<Rightarrow> string \<Rightarrow> nat \<Rightarrow> pvalue list \<times> log_entry list" where
  "search_documents self query_text limit =
     (case snd (query_hybrid_search (ds_hybrid_search self) query_text None limit) of
        Inl e \<Rightarrow> ([], [LogError ''Error searching documents'' e])
      | Inr docs \<Rightarrow> (docs, []))"

record chunk =
  ch_page :: "pvalue option"
  ch_text :: string

text \<open>
  One entry of the summary. While the points are scanned \<open>pages\<close> is a Python set, kept
  here as the list of its members in the order they were first added; afterwards it is
  the sorted list.
\<close>

record document =
  pages :: "pvalue list"
  file_path :: pvalue
  file_type :: pvalue
  file_size :: pvalue
  creation_date :: pvalue
  last_modified_date :: pvalue
  text_chunks :: "chunk list"

text \<open>The summary: a dict keyed by \<open>payload.get("file_name")\<close>, in insertion order.\<close>

type_synonym documents = "(pvalue option \<times> document) list"

definition get_default :: "payload \<Rightarrow> string \<Rightarrow> pvalue" where
  "get_default pl k = (case pl k of None \<Rightarrow> PStr [] | Some v \<Rightarrow> v)"

definition new_document :: "payload \<Rightarrow> document" where
  "new_document pl =
     \<lparr> pages = [],
       file_path = get_default pl ''file_path'',
       file_type = get_default pl ''file_type'',
       file_size = get_default pl ''file_size'',
       creation_date = get_default pl ''creation_date'',
       last_modified_date = get_default pl ''last_modified_date'',
       text_chunks = [] \<rparr>"

definition set_add :: "'a \<Rightarrow> 'a list \<Rightarrow> 'a list" where
  "set_add x xs = (if x \<in> set xs then xs else xs @ [x])"

definition modify :: "pvalue option \<Rightarrow> (document \<Rightarrow> document) \<Rightarrow> documents \<Rightarrow> documents" where
  "modify k f docs = map (\<lambda>(k', d). if k' = k then (k', f d) else (k', d)) docs"

text \<open>
  \<open>payload["text"][:200] + "..." if len(payload["text"]) > 200 else payload["text"]\<close>;
  \<open>len\<close> of an integer raises.
\<close>

definition text_preview :: "pvalue \<Rightarrow> error + string" where
  "text_preview v =
     (case v of
        PStr t \<Rightarrow> Inr (if length t > 200 then take 200 t @ ''...'' else t)
      | PInt n \<Rightarrow> Inl TypeError)"

text \<open>The body of the loop over the points.\<close>

definition add_point :: "documents \<Rightarrow> point \<Rightarrow> error + documents" where
  "add_point docs pt =
     (case payload pt of
        None \<Rightarrow> Inl AttributeError
      | Some pl \<Rightarrow>
          (let filename = pl ''file_name'';
               docs1 = (if filename \<in> set (map fst docs) then docs
                        else docs @ [(filename, new_document pl)]);
               docs2 = (case pl ''page_label'' of
                          None \<Rightarrow> docs1
                        | Some lbl \<Rightarrow>
                            modify filename (\<lambda>d. d\<lparr>pages := set_add lbl (pages d)\<rparr>) docs1)
           in case pl ''text'' of
                None \<Rightarrow> Inr docs2
              | Some t \<Rightarrow>
                  (case text_preview t of
                     Inl e \<Rightarrow> Inl e
                   | Inr pv \<Rightarrow>
                       Inr (modify filename
                              (\<lambda>d. d\<lparr>text_chunks := text_chunks d @
                                     [\<lparr>ch_page = pl ''page_label'', ch_text = pv\<rparr>]\<rparr>)
                              docs2))))"

fun add_points :: "documents \<Rightarrow> point list \<Rightarrow> error + documents" where
  "add_points docs [] = Inr docs"
| "add_points docs (pt # pts) =
     (case add_point docs pt of Inl e \<Rightarrow> Inl e | Inr docs' \<Rightarrow> add_points docs' pts)"

text \<open>
  \<open>str.isdigit\<close>: the string is not empty and every character is a digit. Among the
  characters below 256 these are the decimal digits 0 to 9 (48 to 57) and the
  superscripts two, three and one (178, 179, 185).
\<close>

definition ascii_digit :: "char \<Rightarrow> bool" where
  "ascii_digit c = (48 \<le> (of_char c :: nat) \<and> (of_char c :: nat) \<le> 57)"

definition digit_char :: "char \<Rightarrow> bool" where
  "digit_char c =
     (ascii_digit c \<or> (of_char c :: nat) = 178 \<or> (of_char c :: nat) = 179 \<or>
      (of_char c :: nat) = 185)"

definition isdigit :: "string \<Rightarrow> bool" where
  "isdigit s = (s \<noteq> [] \<and> list_all digit_char s)"

text \<open>
  \<open>int(x)\<close> on a string of digit characters: the value in base ten when every character
  is a decimal digit, \<open>ValueError\<close> when one is a superscript, and \<open>ValueError\<close> as well
  when the string has more characters than the interpreter converts (4300 by default).
\<close>

definition int_max_str_digits :: nat where
  "int_max_str_digits = 4300"

definition int_of_str :: "string \<Rightarrow> error + nat" where
  "int_of_str s =
     (if s \<noteq> [] \<and> list_all ascii_digit s \<and> length s \<le> int_max_str_digits
      then Inr (foldl (\<lambda>a c. 10 * a + (of_char c - 48)) 0 s)
      else Inl ValueError)"

text \<open>
  The sort key \<open>int(x) if x.isdigit() else float("inf")\<close>. An integer label has no
  \<open>isdigit\<close>.
\<close>

definition page_key :: "pvalue \<Rightarrow> error + enat" where
  "page_key v =
     (case v of
        PStr s \<Rightarrow>
          if isdigit s
          then (case int_of_str s of Inl e \<Rightarrow> Inl e | Inr n \<Rightarrow> Inr (enat n))
          else Inr \<infinity>
      | PInt n \<Rightarrow> Inl AttributeError)"

text \<open>The key as the sort compares it, once every key has been computed.\<close>

definition key_of :: "pvalue \<Rightarrow> enat" where
  "key_of v = (case page_key v of Inl e \<Rightarrow> \<infinity> | Inr k \<Rightarrow> k)"

text \<open>
  \<open>sorted(list(doc["pages"]), key=...)\<close>. The order in which \<open>list\<close> walks a set is the
  interpreter's (it follows the hashes), so it is a parameter: \<open>list_of_set\<close> takes the
  members in the order they were added and gives them in the order of the walk.
  \<open>sorted\<close> computes every key first, then sorts stably.
\<close>

definition sorted_pages ::
  "(pvalue list \<Rightarrow> pvalue list) \<Rightarrow> pvalue list \<Rightarrow> error + pvalue list" where
  "sorted_pages list_of_set ps =
     (case collect page_key (list_of_set ps) of
        Inl e \<Rightarrow> Inl e
      | Inr keys \<Rightarrow> Inr (sort_key key_of (list_of_set ps)))"

definition sort_all ::
  "(pvalue list \<Rightarrow> pvalue list) \<Rightarrow> documents \<Rightarrow> error + documents" where
  "sort_all list_of_set docs =
     collect (\<lambda>(k, d). case sorted_pages list_of_set (pages d) of
                          Inl e \<Rightarrow> Inl e
                        | Inr ps \<Rightarrow> Inr (k, d\<lparr>pages := ps\<rparr>)) docs"

text \<open>The body of the \<open>try\<close> block of \<open>get_indexed_documents\<close>.\<close>

definition build_documents ::
  "(pvalue list \<Rightarrow> pvalue list) \<Rightarrow> document_stats \<Rightarrow> error + documents" where
  "build_documents list_of_set self =
     (case scroll (ds_client self) 10000 of
        Inl e \<Rightarrow> Inl e
      | Inr points \<Rightarrow>
          (case add_points [] points of
             Inl e \<Rightarrow> Inl e
           | Inr docs \<Rightarrow> sort_all list_of_set docs))"

definition get_indexed_documents ::
  "(pvalue list \<Rightarrow> pvalue list) \<Rightarrow> document_stats \<Rightarrow> documents \<times> log_entry list" where
  "get_indexed_documents list_of_set self =
     (case build_documents list_of_set self of
        Inl e \<Rightarrow> ([], [LogError ''Error fetching documents'' e])
      | Inr docs \<Rightarrow> (docs, []))"

subsection \<open>What the summary is compared with\<close>

text \<open>
  The preview as the documentation of the summary words it, and the previews a file
  should show: one for every scanned point of the file that has a string \<open>text\<close>.
\<close>

definition claimed_preview :: "string \<Rightarrow> string" where
  "claimed_preview t = (if length t \<le> 200 then t else take 200 t @ ''...'')"

definition claimed_previews :: "pvalue option \<Rightarrow> point list \<Rightarrow> string list" where
  "claimed_previews f pts =
     concat (map (\<lambda>p. case payload p of
                         None \<Rightarrow> []
                       | Some pl \<Rightarrow>
                           if pl ''file_name'' = f
                           then (case pl ''text'' of
                                   Some (PStr t) \<Rightarrow> [claimed_preview t]
                                 | _ \<Rightarrow> [])
                           else []) pts)"

definition chunks_at :: "documents \<Rightarrow> pvalue option \<Rightarrow> chunk list" where
  "chunks_at docs f = (case map_of docs f of None \<Rightarrow> [] | Some d \<Rightarrow> text_chunks d)"




text \<open>
  A label that is a decimal-digit string and its integer value, said without the
  functions of the sort key: the characters are among \<open>0123456789\<close>, a digit is worth its
  place in that string, and the value counts the last character as units, the one before
  as tens, and so on.
\<close>

definition decimal_string :: "string \<Rightarrow> bool" where
  "decimal_string s = (s \<noteq> [] \<and> set s \<subseteq> set ''0123456789'')"







section \<open>The indexer\<close>

text \<open>
  Modelled from the spec: the module \<open>indexing\<close> (\<open>QdrantIndexer\<close>, \<open>DocumentProcessor\<close>) is
  imported by the sources but is not among them. \<open>index_documents\<close> embeds every chunk
  with both models, assembles a point with a fresh identifier and the payload
  \<open>metadata \<union> {text}\<close>, and upserts the points batch by batch, one batch after the other.
  A failed batch is logged by its number and makes the result false; the batches that
  succeeded stay in the store and the later batches are still sent.
\<close>

record node =
  node_text :: string
  node_metadata :: payload

record indexer =
  ix_models :: hybrid_search
  ix_batch_size :: nat
  ix_fresh_id :: nat

function batches :: "nat \<Rightarrow> 'a list \<Rightarrow> 'a list list" where
  "batches n [] = []"
| "batches n (x # xs) =
     (if n = 0 then [x # xs] else take n (x # xs) # batches n (drop n (x # xs)))"
  by pat_completeness auto
termination
  by (relation "measure (\<lambda>(n, xs). length xs)") auto

definition batch_ok :: "vstore \<Rightarrow> point list \<Rightarrow> bool" where
  "batch_ok st b = (st_outage st = None \<and> \<not> st_rejects st b)"

definition upsert :: "vstore \<Rightarrow> point list \<Rightarrow> vstore option" where
  "upsert st b = (if batch_ok st b then Some (st\<lparr>st_points := st_points st @ b\<rparr>) else None)"

text \<open>Modelled from the spec: the batches are sent one after the other, each on its own.\<close>

fun upsert_batches :: "vstore \<Rightarrow> nat \<Rightarrow> point list list \<Rightarrow> bool \<times> vstore \<times> nat list" where
  "upsert_batches st i [] = (True, st, [])"
| "upsert_batches st i (b # bs) =
     (case upsert st b of
        None \<Rightarrow> (case upsert_batches st (Suc i) bs of (ok, st', failed) \<Rightarrow> (False, st', i # failed))
      | Some st1 \<Rightarrow> upsert_batches st1 (Suc i) bs)"

definition node_point :: "hybrid_search \<Rightarrow> nat \<times> node \<Rightarrow> error + point" where
  "node_point models ind =
     (case embedding_model models (node_text (snd ind)) of
        Inl e \<Rightarrow> Inl e
      | Inr dense \<Rightarrow>
          (case sparse_embedding_model models (node_text (snd ind)) of
             Inl e \<Rightarrow> Inl e
           | Inr sparse \<Rightarrow>
               Inr \<lparr> point_id = fst ind,
                     payload = Some ((node_metadata (snd ind))
                                 (''text'' \<mapsto> PStr (node_text (snd ind)))) \<rparr>))"

definition embed_nodes :: "indexer \<Rightarrow> node list \<Rightarrow> error + point list" where
  "embed_nodes ix nodes =
     collect (node_point (ix_models ix))
       (zip [ix_fresh_id ix ..< ix_fresh_id ix + length nodes] nodes)"

text \<open>
  Modelled from the spec: \<open>QdrantIndexer.index_documents\<close>. The result is the boolean,
  the store afterwards and the numbers of the failed batches, as logged.
\<close>

definition index_documents ::
  "indexer \<Rightarrow> node list \<Rightarrow> error + bool \<times> vstore \<times> nat list" where
  "index_documents ix nodes =
     (case embed_nodes ix nodes of
        Inl e \<Rightarrow> Inl e
      | Inr pts \<Rightarrow>
          Inr (upsert_batches (qdrant_client (ix_models ix)) 0 (batches (ix_batch_size ix) pts)))"

section \<open>The indexing endpoint (main\_fastapi.py)\<close>

record upload_file =
  filename :: "string option"

record processing_response =
  success :: bool
  message :: string
  document_count :: "nat option"

text \<open>
  The handler uses the file system, the document processor and the indexer only through
  these four calls, so they are parameters: whether writing an upload under its name in
  the temporary directory succeeds (\<open>open\<close> and \<open>copyfileobj\<close>; a name with a directory
  part that does not exist raises), what \<open>process_documents\<close> returns for the saved
  files (the chunks and an error text, or an exception), and what \<open>setup_collection\<close>
  and \<open>index_documents\<close> do.
\<close>

record indexing =
  write_upload :: "string \<Rightarrow> error + unit"
  process_documents :: "string list \<Rightarrow> error + node list \<times> string option"
  setup_collection :: "string \<Rightarrow> error + unit"
  indexer_index_documents :: "node list \<Rightarrow> error + bool"

definition lower_char :: "char \<Rightarrow> char" where
  "lower_char c =
     (if 65 \<le> (of_char c :: nat) \<and> (of_char c :: nat) \<le> 90
      then char_of (of_char c + 32 :: nat) else c)"

definition lower :: "string \<Rightarrow> string" where
  "lower s = map lower_char s"

definition endswith :: "string \<Rightarrow> string \<Rightarrow> bool" where
  "endswith s suf = (length suf \<le> length s \<and> drop (length s - length suf) s = suf)"

text \<open>
  The loop over the uploads: the suffix test, then the write; the names saved are
  returned.
\<close>

fun save_uploads :: "indexing \<Rightarrow> upload_file list \<Rightarrow> error + string list" where
  "save_uploads deps [] = Inr []"
| "save_uploads deps (file # files) =
     (case filename file of
        None \<Rightarrow> Inl AttributeError
      | Some name \<Rightarrow>
          if \<not> endswith (lower name) ''.pdf''
          then Inl (HTTPException 400 (Detail (''File '' @ name @ '' is not a PDF'')))
          else (case write_upload deps name of
                  Inl e \<Rightarrow> Inl e
                | Inr u \<Rightarrow>
                    (case save_uploads deps files of
                       Inl e \<Rightarrow> Inl e
                     | Inr names \<Rightarrow> Inr (name # names))))"

text \<open>What follows the processing when it reported no error.\<close>

definition index_nodes :: "indexing \<Rightarrow> node list \<Rightarrow> error + processing_response" where
  "index_nodes deps nodes =
     (case nodes of
        [] \<Rightarrow> Inl IndexError
      | n # ns \<Rightarrow>
          (case setup_collection deps (node_text n) of
             Inl e \<Rightarrow> Inl e
           | Inr u \<Rightarrow>
               (case indexer_index_documents deps nodes of
                  Inl e \<Rightarrow> Inl e
                | Inr ok \<Rightarrow>
                    if \<not> ok
                    then Inl (HTTPException 500 (Detail
                      ''Some batches failed during indexing. Check logs for details.''))
                    else Inr \<lparr> success = True,
                               message = ''Documents processed and indexed successfully'',
                               document_count = Some (length nodes) \<rparr>)))"

text \<open>The body of the \<open>try\<close> block. \<open>if error:\<close> holds for a non-empty string.\<close>

definition index_body :: "indexing \<Rightarrow> upload_file list \<Rightarrow> error + processing_response" where
  "index_body deps files =
     (case save_uploads deps files of
        Inl e \<Rightarrow> Inl e
      | Inr names \<Rightarrow>
          (case process_documents deps names of
             Inl e \<Rightarrow> Inl e
           | Inr (nodes, err) \<Rightarrow>
               (case err of
                  None \<Rightarrow> index_nodes deps nodes
                | Some msg \<Rightarrow>
                    if msg \<noteq> [] then Inl (HTTPException 400 (Detail msg))
                    else index_nodes deps nodes)))"

text \<open>
  The handler: \<open>except Exception as e: raise HTTPException(status_code=500, detail=str(e))\<close>
  around the body. \<open>HTTPException\<close> is an \<open>Exception\<close>, so the clause catches it too.
\<close>

definition index_documents_handler ::
  "indexing \<Rightarrow> upload_file list \<Rightarrow> error + processing_response" where
  "index_documents_handler deps files =
     (case index_body deps files of
        Inl e \<Rightarrow> Inl (HTTPException 500 (StrOf e))
      | Inr r \<Rightarrow> Inr r)"

text \<open>The status of the response: that of the exception, 200 for a returned body.\<close>

definition response_status :: "error + processing_response \<Rightarrow> nat" where
  "response_status r =
     (case r of
        Inr body \<Rightarrow> 200
      | Inl (HTTPException code d) \<Rightarrow> code
      | Inl e \<Rightarrow> 500)"

section \<open>The health probe (main\_fastapi.py)\<close>

text \<open>The handler reads nothing; the state of the process is an argument it ignores.\<close>

definition health_check :: "hybrid_search \<Rightarrow> (string \<times> string) list" where
  "health_check env = [(''status'', ''healthy'')]"

section \<open>Concrete inputs\<close>

definition ex_client :: "point list \<Rightarrow> error option \<Rightarrow> vstore" where
  "ex_client pts outage =
     \<lparr> st_points = pts,
       st_similarity =
         (\<lambda>field q p. if field = ''sparse'' then (if point_id p = 1 then 1 else 0)
                       else (if point_id p = 2 then 1 else 0)),
       st_outage = outage,
       st_rejects = (\<lambda>b. \<exists>p \<in> set b. payload p = None),
       st_rrf_k = 60 \<rparr>"

definition ex_models :: "bool \<Rightarrow> bool \<Rightarrow> vstore \<Rightarrow> hybrid_search" where
  "ex_models dense_ok sparse_ok st =
     \<lparr> embedding_model = (\<lambda>q. if dense_ok then Inr [1, 0] else Inl EmbeddingError),
       sparse_embedding_model = (\<lambda>q. if sparse_ok then Inr ([3], [1]) else Inl EmbeddingError),
       qdrant_client = st \<rparr>"

definition ex_stats :: "point list \<Rightarrow> error option \<Rightarrow> document_stats" where
  "ex_stats pts outage =
     \<lparr> ds_client = ex_client pts outage,
       ds_hybrid_search = ex_models True True (ex_client pts outage) \<rparr>"

text \<open>Two passages: the sparse ranking prefers the first, the dense ranking the second.\<close>

definition ex_passages :: "point list" where
  "ex_passages =
     [ \<lparr>point_id = 1, payload = Some [''file_name'' \<mapsto> PStr ''A.pdf'', ''text'' \<mapsto> PStr ''alpha'']\<rparr>,
       \<lparr>point_id = 2, payload = Some [''file_name'' \<mapsto> PStr ''B.pdf'', ''text'' \<mapsto> PStr ''beta'']\<rparr> ]"

definition ex_three_passages :: "point list" where
  "ex_three_passages =
     ex_passages @
     [ \<lparr>point_id = 3, payload = Some [''file_name'' \<mapsto> PStr ''A.pdf'', ''text'' \<mapsto> PStr ''gamma'']\<rparr> ]"

text \<open>The same two passages in a store whose two rankings both prefer the second.\<close>

definition ex_client_second :: vstore where
  "ex_client_second =
     (ex_client ex_passages None)
       \<lparr>st_similarity := (\<lambda>field q p. if point_id p = 2 then 1 else 0)\<rparr>"

definition ex_filter :: qfilter where
  "ex_filter pl = (pl ''file_name'' = Some (PStr ''A.pdf''))"

text \<open>Four points of one file, two of them without text.\<close>

definition ex_points :: "point list" where
  "ex_points =
     [ \<lparr>point_id = 1, payload = Some [''file_name'' \<mapsto> PStr ''a.pdf'',
          ''page_label'' \<mapsto> PStr ''10'', ''text'' \<mapsto> PStr ''ten'']\<rparr>,
       \<lparr>point_id = 2, payload = Some [''file_name'' \<mapsto> PStr ''a.pdf'',
          ''page_label'' \<mapsto> PStr ''ii'', ''text'' \<mapsto> PStr (replicate 201 CHR ''x'')]\<rparr>,
       \<lparr>point_id = 3, payload = Some [''file_name'' \<mapsto> PStr ''a.pdf'',
          ''page_label'' \<mapsto> PStr ''2'']\<rparr>,
       \<lparr>point_id = 4, payload = Some [''file_name'' \<mapsto> PStr ''a.pdf'',
          ''page_label'' \<mapsto> PStr ''i'']\<rparr> ]"

definition ex_no_payload :: "point list" where
  "ex_no_payload =
     [ \<lparr>point_id = 1, payload = Some [''file_name'' \<mapsto> PStr ''a.pdf'', ''text'' \<mapsto> PStr ''ten'']\<rparr>,
       \<lparr>point_id = 5, payload = None\<rparr> ]"

definition ex_int_label :: "point list" where
  "ex_int_label =
     [ \<lparr>point_id = 6, payload = Some [''file_name'' \<mapsto> PStr ''a.pdf'', ''page_label'' \<mapsto> PInt 3]\<rparr> ]"

text \<open>A point whose page label is the superscript two, a digit that is not a decimal.\<close>

definition ex_superscript_label :: "point list" where
  "ex_superscript_label =
     [ \<lparr>point_id = 7, payload = Some [''file_name'' \<mapsto> PStr ''a.pdf'',
          ''page_label'' \<mapsto> PStr [char_of (178 :: nat)], ''text'' \<mapsto> PStr ''two'']\<rparr> ]"

text \<open>The summary of the point with the integer label, before the page labels are sorted.\<close>

definition ex_int_docs :: documents where
  "ex_int_docs =
     [ (Some (PStr ''a.pdf''),
        \<lparr> pages = [PInt 3], file_path = PStr [], file_type = PStr [], file_size = PStr [],
          creation_date = PStr [], last_modified_date = PStr [], text_chunks = [] \<rparr>) ]"

text \<open>
  An indexer with batches of two whose store refuses the point numbered 12, and three
  chunks for it; a processor that reports an error, and one that works with an indexer
  that does.
\<close>

definition ex_indexer :: indexer where
  "ex_indexer =
     \<lparr> ix_models = ex_models True True
         ((ex_client [] None)\<lparr>st_rejects := (\<lambda>b. \<exists>p \<in> set b. point_id p = 12)\<rparr>),
       ix_batch_size = 2,
       ix_fresh_id = 10 \<rparr>"

definition ex_failing_processor :: indexing where
  "ex_failing_processor =
     \<lparr> write_upload = (\<lambda>name. if CHR ''/'' \<in> set name then Inl FileNotFoundError else Inr ()),
       process_documents = (\<lambda>names. Inr ([], Some ''No documents could be processed'')),
       setup_collection = (\<lambda>t. Inr ()),
       indexer_index_documents = (\<lambda>nodes. Inr True) \<rparr>"

definition ex_nodes :: "node list" where
  "ex_nodes =
     [ \<lparr>node_text = ''one'', node_metadata = [''file_name'' \<mapsto> PStr ''r.pdf'']\<rparr>,
       \<lparr>node_text = ''two'', node_metadata = [''file_name'' \<mapsto> PStr ''r.pdf'']\<rparr>,
       \<lparr>node_text = ''three'', node_metadata = [''file_name'' \<mapsto> PStr ''r.pdf'']\<rparr> ]"

definition ex_node_points :: "point list" where
  "ex_node_points =
     [ \<lparr>point_id = 10, payload = Some [''file_name'' \<mapsto> PStr ''r.pdf'', ''text'' \<mapsto> PStr ''one'']\<rparr>,
       \<lparr>point_id = 11, payload = Some [''file_name'' \<mapsto> PStr ''r.pdf'', ''text'' \<mapsto> PStr ''two'']\<rparr>,
       \<lparr>point_id = 12, payload = Some [''file_name'' \<mapsto> PStr ''r.pdf'', ''text'' \<mapsto> PStr ''three'']\<rparr> ]"

definition ex_working :: indexing where
  "ex_working =
     \<lparr> write_upload = (\<lambda>name. if CHR ''/'' \<in> set name then Inl FileNotFoundError else Inr ()),
       process_documents = (\<lambda>names. Inr (ex_nodes, None)),
       setup_collection = (\<lambda>t. Inr ()),
       indexer_index_documents = (\<lambda>nodes. Inr True) \<rparr>"

section \<open>Properties\<close>

text \<open>
  C8. Every request to GET /health/ is answered with the body \<open>{"status": "healthy"}\<close>,
  whatever the state of the vector store and of the embedding models.
\<close>

theorem health_check_healthy:
  "health_check env = [(''status'', ''healthy'')]"
  by (simp add: health_check_def)

subsection \<open>Hybrid retrieval\<close>

lemma collect_Inr_set:
  "collect g xs = Inr ys \<Longrightarrow> t \<in> set ys \<Longrightarrow> \<exists>x \<in> set xs. g x = Inr t"
proof (induction xs arbitrary: ys)
  case Nil
  then show ?case by simp
next
  case (Cons x xs)
  then show ?case by (auto split: sum.splits)
qed

lemma collect_Inr_length: "collect g xs = Inr ys \<Longrightarrow> length ys = length xs"
  by (induction xs arbitrary: ys) (auto split: sum.splits)

lemma run_prefetch_eligible:
  "p \<in> set (run_prefetch st flt pf) \<Longrightarrow> eligible flt p \<and> p \<in> set (st_points st)"
  by (auto simp: run_prefetch_def dest: in_set_takeD)

lemma length_run_prefetch: "length (run_prefetch st flt pf) \<le> pf_limit pf"
  by (simp add: run_prefetch_def)

lemma candidates_subset: "set (candidates seen ps) \<subseteq> set ps"
  by (induction ps arbitrary: seen) auto

lemma length_candidates: "length (candidates seen ps) \<le> length ps"
  by (induction ps arbitrary: seen) (auto simp: le_SucI)

lemma fuse_rrf_member:
  "p \<in> set (fuse_rrf k rankings) \<Longrightarrow> \<exists>r \<in> set rankings. p \<in> set r"
  using candidates_subset [of "[]" "concat rankings"] by (auto simp: fuse_rrf_def)

lemma query_points_member:
  assumes "query_points st rq = Inr pts" and "p \<in> set pts"
  shows "eligible (rq_query_filter rq) p \<and> p \<in> set (st_points st)"
proof -
  from assms have "p \<in> set (fuse_rrf (st_rrf_k st)
      (map (run_prefetch st (rq_query_filter rq)) (rq_prefetch rq)))"
    by (auto simp: query_points_def split: option.splits dest: in_set_takeD)
  from fuse_rrf_member [OF this]
  obtain pf where "p \<in> set (run_prefetch st (rq_query_filter rq) pf)"
    by auto
  then show ?thesis by (rule run_prefetch_eligible)
qed

text \<open>
  What the store answers to the request of the hybrid search: the fused candidates by
  non-increasing fused score, at most ten of them and at most twice the limit of the
  prefetches.
\<close>

lemma query_points_hybrid_request:
  assumes "query_points st (hybrid_request d s flt n) = Inr pts"
  shows "sorted (map (\<lambda>p. - rrf_score (st_rrf_k st)
                   (map (run_prefetch st flt) (rq_prefetch (hybrid_request d s flt n))) p) pts) \<and>
         length pts \<le> 10 \<and> length pts \<le> 2 * n"
proof -
  let ?rs = "map (run_prefetch st flt) (rq_prefetch (hybrid_request d s flt n))"
  from assms have pts: "pts = take 10 (fuse_rrf (st_rrf_k st) ?rs)"
    by (auto simp: query_points_def default_query_limit_def hybrid_request_def split: option.splits)
  have "sorted (map (\<lambda>p. - rrf_score (st_rrf_k st) ?rs p) (fuse_rrf (st_rrf_k st) ?rs))"
    by (simp add: fuse_rrf_def)
  then have a: "sorted (map (\<lambda>p. - rrf_score (st_rrf_k st) ?rs p) pts)"
    unfolding pts take_map [symmetric] by (rule sorted_wrt_take)
  have "length (fuse_rrf (st_rrf_k st) ?rs) \<le> length (concat ?rs)"
    by (simp add: fuse_rrf_def length_candidates)
  also have "\<dots> \<le> n + n"
    using length_run_prefetch [of st flt "\<lparr>pf_query = SparseVector (fst s) (snd s), pf_using = ''sparse'', pf_limit = n\<rparr>"]
      length_run_prefetch [of st flt "\<lparr>pf_query = DenseVector d, pf_using = ''dense'', pf_limit = n\<rparr>"]
    by (simp add: hybrid_request_def)
  finally have "length pts \<le> 2 * n" by (simp add: pts)
  with a show ?thesis by (simp add: pts)
qed

lemmas search_defs =
  query_hybrid_search_def hybrid_request_def query_points_def default_query_limit_def
  fuse_rrf_def run_prefetch_def eligible_def payload_of_def rrf_score_def point_text_def
  ex_stats_def ex_client_def ex_client_second_def ex_models_def ex_passages_def
  ex_three_passages_def ex_filter_def

text \<open>
  C1 at a concrete input. With the limit 1 each prefetch keeps one candidate, the sparse
  one the first passage and the dense one the second; the request carries no limit of its
  own, and the call returns both passages.
\<close>

theorem query_hybrid_search_over_limit:
  "map (\<lambda>rq. (map pf_using (rq_prefetch rq), map pf_limit (rq_prefetch rq), rq_query rq, rq_limit rq))
     (fst (query_hybrid_search (ex_models True True (ex_client ex_passages None)) ''alpha'' None 1)) =
     [([''sparse'', ''dense''], [1, 1], RRF, None)] \<and>
   snd (query_hybrid_search (ex_models True True (ex_client ex_passages None)) ''alpha'' None 1) =
     Inr [PStr ''alpha'', PStr ''beta'']"
  by (simp add: search_defs)

text \<open>
  C5. An exception of the dense model, of the sparse model or of the store is the result
  of \<open>query_hybrid_search\<close> as it was raised, with no list beside it; the store is asked at
  most once.
\<close>

theorem query_hybrid_search_propagates:
  "(embedding_model self q = Inl e \<longrightarrow> query_hybrid_search self q flt n = ([], Inl e)) \<and>
   (embedding_model self q = Inr d \<and> sparse_embedding_model self q = Inl e \<longrightarrow>
      query_hybrid_search self q flt n = ([], Inl e)) \<and>
   (embedding_model self q = Inr d \<and> sparse_embedding_model self q = Inr s \<and>
    query_points (qdrant_client self) (hybrid_request d s flt n) = Inl e \<longrightarrow>
      query_hybrid_search self q flt n = ([hybrid_request d s flt n], Inl e)) \<and>
   length (fst (query_hybrid_search self q flt n)) \<le> 1"
  by (simp add: query_hybrid_search_def Let_def split: sum.splits)

theorem query_hybrid_search_propagates_witness:
  "embedding_model (ex_models False True (ex_client ex_passages None)) ''alpha'' = Inl EmbeddingError \<and>
   query_hybrid_search (ex_models False True (ex_client ex_passages None)) ''alpha'' None 5 =
     ([], Inl EmbeddingError) \<and>
   embedding_model (ex_models True False (ex_client ex_passages None)) ''alpha'' = Inr [1, 0] \<and>
   sparse_embedding_model (ex_models True False (ex_client ex_passages None)) ''alpha'' =
     Inl EmbeddingError \<and>
   query_hybrid_search (ex_models True False (ex_client ex_passages None)) ''alpha'' None 5 =
     ([], Inl EmbeddingError) \<and>
   query_points (ex_client ex_passages (Some ConnectionError)) (hybrid_request [1, 0] ([3], [1]) None 5) =
     Inl ConnectionError \<and>
   query_hybrid_search (ex_models True True (ex_client ex_passages (Some ConnectionError))) ''alpha'' None 5 =
     ([hybrid_request [1, 0] ([3], [1]) None 5], Inl ConnectionError)"
proof -
  have a: "embedding_model (ex_models False True (ex_client ex_passages None)) ''alpha'' =
      Inl EmbeddingError"
    by (simp add: ex_models_def)
  have b1: "embedding_model (ex_models True False (ex_client ex_passages None)) ''alpha'' = Inr [1, 0]"
    by (simp add: ex_models_def)
  have b2: "sparse_embedding_model (ex_models True False (ex_client ex_passages None)) ''alpha'' =
     Inl EmbeddingError"
    by (simp add: ex_models_def)
  have c1: "embedding_model (ex_models True True (ex_client ex_passages (Some ConnectionError))) ''alpha'' =
     Inr [1, 0]"
    by (simp add: ex_models_def)
  have c2: "sparse_embedding_model (ex_models True True (ex_client ex_passages (Some ConnectionError)))
     ''alpha'' = Inr ([3], [1])"
    by (simp add: ex_models_def)
  have c3: "query_points (ex_client ex_passages (Some ConnectionError))
     (hybrid_request [1, 0] ([3], [1]) None 5) = Inl ConnectionError"
    by (simp add: query_points_def ex_client_def)
  have c4: "qdrant_client (ex_models True True (ex_client ex_passages (Some ConnectionError))) =
     ex_client ex_passages (Some ConnectionError)"
    by (simp add: ex_models_def)
  from query_hybrid_search_propagates
    [of "ex_models False True (ex_client ex_passages None)" "''alpha''" EmbeddingError None 5] a
  have r1: "query_hybrid_search (ex_models False True (ex_client ex_passages None)) ''alpha'' None 5 =
     ([], Inl EmbeddingError)" by simp
  from query_hybrid_search_propagates
    [of "ex_models True False (ex_client ex_passages None)" "''alpha''" EmbeddingError None 5 "[1, 0]"]
    b1 b2
  have r2: "query_hybrid_search (ex_models True False (ex_client ex_passages None)) ''alpha'' None 5 =
     ([], Inl EmbeddingError)" by simp
  from query_hybrid_search_propagates
    [of "ex_models True True (ex_client ex_passages (Some ConnectionError))" "''alpha''"
        ConnectionError None 5 "[1, 0]" "([3], [1])"]
    c1 c2 c3 c4
  have r3: "query_hybrid_search (ex_models True True (ex_client ex_passages (Some ConnectionError)))
     ''alpha'' None 5 = ([hybrid_request [1, 0] ([3], [1]) None 5], Inl ConnectionError)" by simp
  from a b1 b2 c3 r1 r2 r3 show ?thesis by simp
qed

lemma run_prefetch_restricted:
  "run_prefetch st (Some flt) pf = run_prefetch (restricted_to flt st) None pf"
proof -
  have "eligible (Some flt) = (\<lambda>p. flt (payload_of p))"
    by (rule ext) (simp add: eligible_def)
  moreover have "eligible None = (\<lambda>p. True)"
    by (rule ext) (simp add: eligible_def)
  ultimately show ?thesis
    by (simp add: run_prefetch_def restricted_to_def)
qed

lemma query_points_restricted:
  "query_points st (hybrid_request d s (Some flt) n) =
   query_points (restricted_to flt st) (hybrid_request d s None n)"
proof -
  have "st_outage (restricted_to flt st) = st_outage st"
    and "st_rrf_k (restricted_to flt st) = st_rrf_k st"
    by (simp_all add: restricted_to_def)
  then show ?thesis
    by (cases "st_outage st")
       (simp_all add: query_points_def hybrid_request_def run_prefetch_restricted)
qed

text \<open>
  C2. With a metadata filter, once the query is embedded the one request sent carries
  the filter and a sparse and a dense prefetch, each with the limit. Each prefetch then
  ranks only points whose payload satisfies the filter, exactly as it would without a
  filter on the collection restricted to those points, and so the whole search answers
  as the unfiltered search of the restricted collection does. Every passage returned is
  the text of a stored point whose payload satisfies the filter.
\<close>

theorem metadata_filter_applied:
  "(embedding_model self q = Inr d \<and> sparse_embedding_model self q = Inr s \<longrightarrow>
      fst (query_hybrid_search self q (Some flt) n) = [hybrid_request d s (Some flt) n] \<and>
      rq_query_filter (hybrid_request d s (Some flt) n) = Some flt \<and>
      map pf_using (rq_prefetch (hybrid_request d s (Some flt) n)) = [''sparse'', ''dense''] \<and>
      map pf_limit (rq_prefetch (hybrid_request d s (Some flt) n)) = [n, n]) \<and>
   (\<forall>rq \<in> set (fst (query_hybrid_search self q (Some flt) n)).
      \<forall>pf \<in> set (rq_prefetch rq).
        run_prefetch (qdrant_client self) (rq_query_filter rq) pf =
          run_prefetch (restricted_to flt (qdrant_client self)) None pf \<and>
        (\<forall>p \<in> set (run_prefetch (qdrant_client self) (rq_query_filter rq) pf).
           flt (payload_of p))) \<and>
   snd (query_hybrid_search self q (Some flt) n) =
     snd (query_hybrid_search
            (self\<lparr>qdrant_client := restricted_to flt (qdrant_client self)\<rparr>) q None n) \<and>
   (\<forall>docs. snd (query_hybrid_search self q (Some flt) n) = Inr docs \<longrightarrow>
      (\<forall>t \<in> set docs. \<exists>p \<in> set (st_points (qdrant_client self)).
         flt (payload_of p) \<and> point_text p = Inr t))"
proof (intro conjI impI ballI allI)
  assume "embedding_model self q = Inr d \<and> sparse_embedding_model self q = Inr s"
  then show "fst (query_hybrid_search self q (Some flt) n) = [hybrid_request d s (Some flt) n]"
    by (simp add: query_hybrid_search_def Let_def)
next
  show "rq_query_filter (hybrid_request d s (Some flt) n) = Some flt"
    by (simp add: hybrid_request_def)
next
  show "map pf_using (rq_prefetch (hybrid_request d s (Some flt) n)) = [''sparse'', ''dense'']"
    by (simp add: hybrid_request_def)
next
  show "map pf_limit (rq_prefetch (hybrid_request d s (Some flt) n)) = [n, n]"
    by (simp add: hybrid_request_def)
next
  fix rq pf
  assume "rq \<in> set (fst (query_hybrid_search self q (Some flt) n))"
  then have "rq_query_filter rq = Some flt"
    by (auto simp: query_hybrid_search_def Let_def hybrid_request_def split: sum.splits)
  then show "run_prefetch (qdrant_client self) (rq_query_filter rq) pf =
      run_prefetch (restricted_to flt (qdrant_client self)) None pf"
    by (simp add: run_prefetch_restricted)
next
  fix rq pf p
  assume rq: "rq \<in> set (fst (query_hybrid_search self q (Some flt) n))"
    and p: "p \<in> set (run_prefetch (qdrant_client self) (rq_query_filter rq) pf)"
  from rq have "rq_query_filter rq = Some flt"
    by (auto simp: query_hybrid_search_def Let_def hybrid_request_def split: sum.splits)
  with run_prefetch_eligible [OF p] show "flt (payload_of p)"
    by (simp add: eligible_def)
next
  show "snd (query_hybrid_search self q (Some flt) n) =
     snd (query_hybrid_search
            (self\<lparr>qdrant_client := restricted_to flt (qdrant_client self)\<rparr>) q None n)"
    by (simp add: query_hybrid_search_def Let_def query_points_restricted split: sum.splits)
next
  fix docs t
  assume r: "snd (query_hybrid_search self q (Some flt) n) = Inr docs" and t: "t \<in> set docs"
  from r obtain d s pts where
    qp: "query_points (qdrant_client self) (hybrid_request d s (Some flt) n) = Inr pts" and
    c: "collect point_text pts = Inr docs"
    by (auto simp: query_hybrid_search_def Let_def split: sum.splits)
  from collect_Inr_set [OF c t] obtain p where p: "p \<in> set pts" "point_text p = Inr t"
    by blast
  from query_points_member [OF qp p(1)]
  have "flt (payload_of p) \<and> p \<in> set (st_points (qdrant_client self))"
    by (simp add: eligible_def hybrid_request_def)
  with p(2) show "\<exists>p \<in> set (st_points (qdrant_client self)). flt (payload_of p) \<and> point_text p = Inr t"
    by blast
qed

text \<open>
  Both rankings of the store prefer the passage of \<open>B.pdf\<close>, so with the limit 1 it is the
  only candidate of the unfiltered search. With the filter on \<open>A.pdf\<close> each prefetch ranks
  the passage of \<open>A.pdf\<close> instead, and it is returned.
\<close>

theorem metadata_filter_applied_witness:
  "embedding_model (ex_models True True ex_client_second) ''beta'' = Inr [1, 0] \<and>
   sparse_embedding_model (ex_models True True ex_client_second) ''beta'' = Inr ([3], [1]) \<and>
   fst (query_hybrid_search (ex_models True True ex_client_second) ''beta'' (Some ex_filter) 1) =
     [hybrid_request [1, 0] ([3], [1]) (Some ex_filter) 1] \<and>
   snd (query_hybrid_search (ex_models True True ex_client_second) ''beta'' None 1) =
     Inr [PStr ''beta''] \<and>
   snd (query_hybrid_search (ex_models True True ex_client_second) ''beta'' (Some ex_filter) 1) =
     Inr [PStr ''alpha''] \<and>
   snd (query_hybrid_search
          ((ex_models True True ex_client_second)
             \<lparr>qdrant_client := restricted_to ex_filter ex_client_second\<rparr>) ''beta'' None 1) =
     Inr [PStr ''alpha''] \<and>
   (\<exists>p \<in> set ex_passages. ex_filter (payload_of p) \<and> point_text p = Inr (PStr ''alpha''))"
proof -
  have e1: "embedding_model (ex_models True True ex_client_second) ''beta'' = Inr [1, 0]"
    and e2: "sparse_embedding_model (ex_models True True ex_client_second) ''beta'' = Inr ([3], [1])"
    by (simp_all add: ex_models_def)
  have a: "snd (query_hybrid_search (ex_models True True ex_client_second) ''beta'' None 1) =
     Inr [PStr ''beta'']"
    by (simp add: search_defs)
  have b: "snd (query_hybrid_search (ex_models True True ex_client_second) ''beta''
             (Some ex_filter) 1) = Inr [PStr ''alpha'']"
    by (simp add: search_defs)
  have c: "qdrant_client (ex_models True True ex_client_second) = ex_client_second"
    "st_points ex_client_second = ex_passages"
    by (simp_all add: ex_models_def ex_client_second_def ex_client_def)
  note inst = metadata_filter_applied
    [of "ex_models True True ex_client_second" "''beta''" "[1, 0]" "([3], [1])" ex_filter 1]
  from inst e1 e2
  have f: "fst (query_hybrid_search (ex_models True True ex_client_second) ''beta''
             (Some ex_filter) 1) = [hybrid_request [1, 0] ([3], [1]) (Some ex_filter) 1]"
    by blast
 from inst b
  have r: "snd (query_hybrid_search
          ((ex_models True True ex_client_second)
             \<lparr>qdrant_client := restricted_to ex_filter ex_client_second\<rparr>) ''beta'' None 1) =
     Inr [PStr ''alpha'']"
    unfolding c by simp
 from inst b
  have "\<forall>t \<in> set [PStr ''alpha'']. \<exists>p \<in> set ex_passages.
          ex_filter (payload_of p) \<and> point_text p = Inr t"
    unfolding c by blast
  with e1 e2 f a b r show ?thesis by simp
qed

subsection \<open>The document summary\<close>

lemma map_of_modify:
  "map_of (modify k g docs) f = (if f = k then map_option g (map_of docs f) else map_of docs f)"
  by (induction docs) (auto simp: modify_def)

lemma map_of_snoc_new:
  "k \<notin> set (map fst docs) \<Longrightarrow> map_of (docs @ [(k, d)]) f = (if f = k then Some d else map_of docs f)"
  by (induction docs) auto

lemma chunks_at_modify_pages:
  "chunks_at (modify k (\<lambda>d. d\<lparr>pages := h d\<rparr>) docs) f = chunks_at docs f"
  by (auto simp: chunks_at_def map_of_modify split: option.splits)

lemma chunks_at_modify_chunks:
  "k \<in> set (map fst docs) \<Longrightarrow>
   chunks_at (modify k (\<lambda>d. d\<lparr>text_chunks := text_chunks d @ [c]\<rparr>) docs) f =
     (if f = k then chunks_at docs f @ [c] else chunks_at docs f)"
  by (auto simp: chunks_at_def map_of_modify map_of_eq_None_iff split: option.splits)

lemma chunks_at_new:
  "k \<notin> set (map fst docs) \<Longrightarrow> chunks_at (docs @ [(k, new_document pl)]) f = chunks_at docs f"
proof -
  assume "k \<notin> set (map fst docs)"
  then have "map_of docs k = None" by (simp add: map_of_eq_None_iff)
  then show ?thesis
    by (cases "f = k") (auto simp: chunks_at_def new_document_def map_add_def split: option.splits)
qed

lemma keys_modify: "map fst (modify k g docs) = map fst docs"
  by (induction docs) (auto simp: modify_def)

lemma keys_modify_set: "fst ` set (modify k g docs) = fst ` set docs"
  using keys_modify[of k g docs] by (metis set_map)

lemma claimed_previews_Cons:
  "claimed_previews f (p # ps) = claimed_previews f [p] @ claimed_previews f ps"
  by (simp add: claimed_previews_def)

lemma add_point_chunks:
  assumes "add_point docs pt = Inr docs'"
  shows "map ch_text (chunks_at docs' f) = map ch_text (chunks_at docs f) @ claimed_previews f [pt]"
proof (cases "payload pt")
  case None
  with assms show ?thesis by (simp add: add_point_def)
next
  case (Some pl)
  define k where "k = pl ''file_name''"
  define docs1 where "docs1 = (if k \<in> set (map fst docs) then docs else docs @ [(k, new_document pl)])"
  define docs2 where "docs2 = (case pl ''page_label'' of None \<Rightarrow> docs1
     | Some lbl \<Rightarrow> modify k (\<lambda>d. d\<lparr>pages := set_add lbl (pages d)\<rparr>) docs1)"
  have k1: "k \<in> set (map fst docs1)" by (auto simp: docs1_def)
  have c1: "chunks_at docs1 f = chunks_at docs f"
    unfolding docs1_def using chunks_at_new by auto
  have k2: "k \<in> set (map fst docs2)"
    using k1 by (simp add: docs2_def keys_modify_set split: option.splits)
  have c2: "chunks_at docs2 f = chunks_at docs f"
    using c1 by (simp add: docs2_def chunks_at_modify_pages split: option.splits)
  show ?thesis
  proof (cases "pl ''text''")
    case None
    with assms Some have "docs' = docs2"
      unfolding docs2_def docs1_def k_def
      by (auto simp: add_point_def Let_def split: if_splits option.splits)
    with None Some c2 show ?thesis
      by (simp add: claimed_previews_def)
  next
    case (Some t)
    note tx = this
    show ?thesis
    proof (cases t)
      case (PStr s)
      with assms tx \<open>payload pt = Some pl\<close>
      have "docs' = modify k (\<lambda>d. d\<lparr>text_chunks := text_chunks d @
               [\<lparr>ch_page = pl ''page_label'', ch_text = (if length s > 200 then take 200 s @ ''...'' else s)\<rparr>]\<rparr>) docs2"
        unfolding docs2_def docs1_def k_def
        by (auto simp: add_point_def Let_def text_preview_def split: if_splits option.splits)
      then show ?thesis
        using k2 c2 PStr tx \<open>payload pt = Some pl\<close>
        by (auto simp: chunks_at_modify_chunks claimed_previews_def claimed_preview_def k_def)
    next
      case (PInt n)
      with assms tx \<open>payload pt = Some pl\<close> show ?thesis
        by (simp add: add_point_def Let_def text_preview_def)
    qed
  qed
qed

lemma add_points_chunks:
  "add_points docs pts = Inr docs' \<Longrightarrow>
   map ch_text (chunks_at docs' f) = map ch_text (chunks_at docs f) @ claimed_previews f pts"
proof (induction pts arbitrary: docs)
  case Nil
  then show ?case by (simp add: claimed_previews_def)
next
  case (Cons pt pts)
  then obtain d1 where a: "add_point docs pt = Inr d1" and b: "add_points d1 pts = Inr docs'"
    by (auto split: sum.splits)
  from Cons.IH[OF b] add_point_chunks[OF a, of f] show ?case
    by (simp add: claimed_previews_Cons[of f pt pts])
qed

lemma sort_all_map_of:
  "sort_all los docs = Inr docs' \<Longrightarrow>
   map_of docs' f = (case map_of docs f of None \<Rightarrow> None
      | Some d \<Rightarrow> Some (d\<lparr>pages := sort_key key_of (los (pages d))\<rparr>))"
proof (induction docs arbitrary: docs')
  case Nil
  then show ?case by (simp add: sort_all_def)
next
  case (Cons a docs)
  then show ?case
    by (cases a) (auto simp: sort_all_def sorted_pages_def split: sum.splits)
qed

lemma sort_all_chunks: "sort_all los docs = Inr docs' \<Longrightarrow> chunks_at docs' f = chunks_at docs f"
  by (simp add: chunks_at_def sort_all_map_of split: option.splits)









lemma build_documents_Inr:
  assumes "snd (get_indexed_documents los self) = []"
  obtains d1 where "add_points [] (take 10000 (st_points (ds_client self))) = Inr d1"
    and "sort_all los d1 = Inr (fst (get_indexed_documents los self))"
  using assms
  by (auto simp: get_indexed_documents_def build_documents_def scroll_def
      split: sum.splits option.splits)



lemma char_of_digits:
  "char_of (48::nat) = CHR ''0''" "char_of (49::nat) = CHR ''1''" "char_of (50::nat) = CHR ''2''"
  "char_of (51::nat) = CHR ''3''" "char_of (52::nat) = CHR ''4''" "char_of (53::nat) = CHR ''5''"
  "char_of (54::nat) = CHR ''6''" "char_of (55::nat) = CHR ''7''" "char_of (56::nat) = CHR ''8''"
  "char_of (57::nat) = CHR ''9''"
  by code_simp+

lemma ascii_digit_iff: "ascii_digit c \<longleftrightarrow> c \<in> set ''0123456789''"
proof
  assume "ascii_digit c"
  then have "(of_char c :: nat) \<in> {48, 49, 50, 51, 52, 53, 54, 55, 56, 57}"
    unfolding ascii_digit_def by (simp, arith)
  moreover have "c = char_of (of_char c :: nat)" by simp
  ultimately have "c \<in> char_of ` {48::nat, 49, 50, 51, 52, 53, 54, 55, 56, 57}"
    by (rule_tac x = "of_char c" in image_eqI)
  then show "c \<in> set ''0123456789''"
    by (simp only: image_insert image_empty char_of_digits list.set)
next
  have "list_all ascii_digit ''0123456789''" by code_simp
  moreover assume "c \<in> set ''0123456789''"
  ultimately show "ascii_digit c" unfolding list_all_iff by (rule bspec)
qed


lemma decimal_string_iff: "decimal_string s \<longleftrightarrow> s \<noteq> [] \<and> list_all ascii_digit s"
  unfolding decimal_string_def list_all_iff ascii_digit_iff by blast






lemmas summary_defs =
  get_indexed_documents_def build_documents_def scroll_def ex_stats_def ex_client_def
  add_point_def modify_def set_add_def new_document_def get_default_def text_preview_def
  sort_all_def sorted_pages_def page_key_def key_of_def isdigit_def digit_char_def
  ascii_digit_def int_of_str_def int_max_str_digits_def Let_def

text \<open>
  C10. In a summary built without an exception, the previews of a file are, in scan
  order, those of its points that have a text: the whole text when it has at most 200
  characters, its first 200 characters followed by \<open>...\<close> otherwise. A point without a
  text field adds none.
\<close>

theorem text_previews_of_summary:
  assumes "snd (get_indexed_documents los self) = []"
  shows "map ch_text (chunks_at (fst (get_indexed_documents los self)) f) =
           claimed_previews f (take 10000 (st_points (ds_client self)))"
proof -
  from assms obtain d1 where
    a: "add_points [] (take 10000 (st_points (ds_client self))) = Inr d1" and
    b: "sort_all los d1 = Inr (fst (get_indexed_documents los self))"
    by (rule build_documents_Inr)
  have "chunks_at (fst (get_indexed_documents los self)) f = chunks_at d1 f"
    using b by (rule sort_all_chunks)
  moreover have "map ch_text (chunks_at d1 f) =
      map ch_text (chunks_at [] f) @ claimed_previews f (take 10000 (st_points (ds_client self)))"
    using a by (rule add_points_chunks)
  ultimately show ?thesis by (simp add: chunks_at_def)
qed

theorem text_previews_of_summary_witness:
  "snd (get_indexed_documents id (ex_stats ex_points None)) = [] \<and>
   map ch_text (chunks_at (fst (get_indexed_documents id (ex_stats ex_points None)))
                  (Some (PStr ''a.pdf''))) =
     [''ten'', replicate 200 CHR ''x'' @ ''...'']"
proof -
  have h: "snd (get_indexed_documents id (ex_stats ex_points None)) = []"
    by (simp add: summary_defs ex_points_def)
  have "claimed_previews (Some (PStr ''a.pdf''))
          (take 10000 (st_points (ds_client (ex_stats ex_points None)))) =
        [''ten'', replicate 200 CHR ''x'' @ ''...'']"
    by (simp add: claimed_previews_def claimed_preview_def ex_stats_def ex_client_def ex_points_def)
  with text_previews_of_summary [OF h, of "Some (PStr ''a.pdf'')"] h show ?thesis
    by simp
qed

text \<open>
  A label for which \<open>isdigit\<close> holds and \<open>int\<close> raises: the summary is given up, although
  the scan had built an entry with a page and a preview.
\<close>

lemma superscript_label_raises:
  "isdigit [char_of (178 :: nat)] \<and>
   int_of_str [char_of (178 :: nat)] = Inl ValueError \<and>
   \<not> decimal_string [char_of (178 :: nat)] \<and>
   get_indexed_documents id (ex_stats ex_superscript_label None) =
     ([], [LogError ''Error fetching documents'' ValueError])"
proof -
  have a: "isdigit [char_of (178 :: nat)]" by code_simp
  have b: "int_of_str [char_of (178 :: nat)] = Inl ValueError" by code_simp
  have c: "\<not> decimal_string [char_of (178 :: nat)]"
    using b by (auto simp: decimal_string_iff int_of_str_def int_max_str_digits_def)
  have "page_key (PStr [char_of (178 :: nat)]) = Inl ValueError"
    using a b by (simp add: page_key_def)
  then have "get_indexed_documents id (ex_stats ex_superscript_label None) =
     ([], [LogError ''Error fetching documents'' ValueError])"
    by (simp add: get_indexed_documents_def build_documents_def scroll_def ex_stats_def
        ex_client_def ex_superscript_label_def add_point_def modify_def set_add_def
        new_document_def get_default_def text_preview_def sort_all_def sorted_pages_def Let_def)
  with a b c show ?thesis by simp
qed

text \<open>
  C9. Whatever raises while the summary is built (the scroll, the scan of the points or
  the sorting of the page labels), \<open>get_indexed_documents\<close> returns the empty mapping and
  logs the exception; nothing of a partly built summary is returned.
\<close>

theorem get_indexed_documents_swallows:
  "(scroll (ds_client self) 10000 = Inl e \<longrightarrow>
      get_indexed_documents los self = ([], [LogError ''Error fetching documents'' e])) \<and>
   (scroll (ds_client self) 10000 = Inr pts \<and> add_points [] pts = Inl e \<longrightarrow>
      get_indexed_documents los self = ([], [LogError ''Error fetching documents'' e])) \<and>
   (scroll (ds_client self) 10000 = Inr pts \<and> add_points [] pts = Inr docs \<and>
    sort_all los docs = Inl e \<longrightarrow>
      get_indexed_documents los self = ([], [LogError ''Error fetching documents'' e]))"
  by (simp add: get_indexed_documents_def build_documents_def)

theorem get_indexed_documents_swallows_witness:
  "scroll (ds_client (ex_stats ex_points (Some ConnectionError))) 10000 = Inl ConnectionError \<and>
   get_indexed_documents id (ex_stats ex_points (Some ConnectionError)) =
     ([], [LogError ''Error fetching documents'' ConnectionError]) \<and>
   scroll (ds_client (ex_stats ex_no_payload None)) 10000 = Inr ex_no_payload \<and>
   add_points [] ex_no_payload = Inl AttributeError \<and>
   get_indexed_documents id (ex_stats ex_no_payload None) =
     ([], [LogError ''Error fetching documents'' AttributeError]) \<and>
   scroll (ds_client (ex_stats ex_int_label None)) 10000 = Inr ex_int_label \<and>
   add_points [] ex_int_label = Inr ex_int_docs \<and>
   sort_all id ex_int_docs = Inl AttributeError \<and>
   get_indexed_documents id (ex_stats ex_int_label None) =
     ([], [LogError ''Error fetching documents'' AttributeError])"
proof -
  have a: "scroll (ds_client (ex_stats ex_points (Some ConnectionError))) 10000 = Inl ConnectionError"
    by (simp add: scroll_def ex_stats_def ex_client_def)
  have b1: "scroll (ds_client (ex_stats ex_no_payload None)) 10000 = Inr ex_no_payload"
    by (simp add: scroll_def ex_stats_def ex_client_def ex_no_payload_def)
  have b2: "add_points [] ex_no_payload = Inl AttributeError"
    by (simp add: summary_defs ex_no_payload_def)
  have c1: "scroll (ds_client (ex_stats ex_int_label None)) 10000 = Inr ex_int_label"
    by (simp add: scroll_def ex_stats_def ex_client_def ex_int_label_def)
  have c2: "add_points [] ex_int_label = Inr ex_int_docs"
    by (simp add: summary_defs ex_int_label_def ex_int_docs_def)
  have c3: "sort_all id ex_int_docs = Inl AttributeError"
    by (simp add: summary_defs ex_int_docs_def)
  from get_indexed_documents_swallows [of "ex_stats ex_points (Some ConnectionError)" ConnectionError id] a
  have r1: "get_indexed_documents id (ex_stats ex_points (Some ConnectionError)) =
     ([], [LogError ''Error fetching documents'' ConnectionError])" by simp
  from get_indexed_documents_swallows [of "ex_stats ex_no_payload None" AttributeError id ex_no_payload] b1 b2
  have r2: "get_indexed_documents id (ex_stats ex_no_payload None) =
     ([], [LogError ''Error fetching documents'' AttributeError])" by simp
  from get_indexed_documents_swallows [of "ex_stats ex_int_label None" AttributeError id ex_int_label ex_int_docs] c1 c2 c3
  have r3: "get_indexed_documents id (ex_stats ex_int_label None) =
     ([], [LogError ''Error fetching documents'' AttributeError])" by simp
  from a b1 b2 c1 c2 c3 r1 r2 r3 show ?thesis by simp
qed

text \<open>
  C6. \<open>search_documents\<close> returns the empty list and logs the exception when the hybrid
  search raises, and returns the list of the hybrid search unchanged when it does not.
\<close>

theorem search_documents_swallows:
  "(snd (query_hybrid_search (ds_hybrid_search self) q None limit) = Inl e \<longrightarrow>
      search_documents self q limit = ([], [LogError ''Error searching documents'' e])) \<and>
   (snd (query_hybrid_search (ds_hybrid_search self) q None limit) = Inr docs \<longrightarrow>
      search_documents self q limit = (docs, []))"
  by (simp add: search_documents_def)

theorem search_documents_swallows_witness:
  "snd (query_hybrid_search (ds_hybrid_search (ex_stats ex_passages (Some ConnectionError)))
          ''alpha'' None 5) = Inl ConnectionError \<and>
   search_documents (ex_stats ex_passages (Some ConnectionError)) ''alpha'' 5 =
     ([], [LogError ''Error searching documents'' ConnectionError]) \<and>
   snd (query_hybrid_search (ds_hybrid_search (ex_stats ex_passages None)) ''alpha'' None 5) =
     Inr [PStr ''alpha'', PStr ''beta''] \<and>
   search_documents (ex_stats ex_passages None) ''alpha'' 5 = ([PStr ''alpha'', PStr ''beta''], [])"
proof -
  have a: "snd (query_hybrid_search (ds_hybrid_search (ex_stats ex_passages (Some ConnectionError)))
          ''alpha'' None 5) = Inl ConnectionError"
    by (simp add: search_defs)
  have b: "snd (query_hybrid_search (ds_hybrid_search (ex_stats ex_passages None)) ''alpha'' None 5) =
     Inr [PStr ''alpha'', PStr ''beta'']"
    by (simp add: search_defs)
  from search_documents_swallows
         [of "ex_stats ex_passages (Some ConnectionError)" "''alpha''" 5 ConnectionError] a
  have r1: "search_documents (ex_stats ex_passages (Some ConnectionError)) ''alpha'' 5 =
     ([], [LogError ''Error searching documents'' ConnectionError])" by simp
  from search_documents_swallows
         [of "ex_stats ex_passages None" "''alpha''" 5 _ "[PStr ''alpha'', PStr ''beta'']"] b
  have r2: "search_documents (ex_stats ex_passages None) ''alpha'' 5 =
     ([PStr ''alpha'', PStr ''beta''], [])" by simp
  from a b r1 r2 show ?thesis by simp
qed






subsection \<open>The indexer\<close>

lemma batch_ok_points: "batch_ok (st\<lparr>st_points := ps\<rparr>) = batch_ok st"
  by (rule ext) (simp add: batch_ok_def)

lemma concat_batches: "concat (batches n xs) = xs"
  by (induction n xs rule: batches.induct) auto

lemma upsert_batches_result:
  "\<exists>failed. upsert_batches st i bs =
     (list_all (batch_ok st) bs,
      st\<lparr>st_points := st_points st @ concat (filter (batch_ok st) bs)\<rparr>,
      failed)"
proof (induction bs arbitrary: st i)
  case Nil
  then show ?case by simp
next
  case (Cons b bs)
  show ?case
  proof (cases "batch_ok st b")
    case True
    from Cons [of "st\<lparr>st_points := st_points st @ b\<rparr>" "Suc i"] True show ?thesis
      by (auto simp: upsert_def batch_ok_points)
  next
    case False
    from Cons [of st "Suc i"] False show ?thesis
      by (auto simp: upsert_def)
  qed
qed

text \<open>
  C3. When every chunk is embedded, \<open>index_documents\<close> returns true exactly when every
  batch is accepted by the store, and afterwards the store holds, after what it held
  before, the points of every accepted batch: a failed batch takes nothing back.
\<close>

theorem index_documents_all_batches:
  assumes "embed_nodes ix nodes = Inr pts"
  shows "\<exists>failed. index_documents ix nodes =
           Inr (list_all (batch_ok (qdrant_client (ix_models ix))) (batches (ix_batch_size ix) pts),
                (qdrant_client (ix_models ix))
                  \<lparr>st_points := st_points (qdrant_client (ix_models ix)) @
                     concat (filter (batch_ok (qdrant_client (ix_models ix)))
                               (batches (ix_batch_size ix) pts))\<rparr>,
                failed)"
  using assms upsert_batches_result
    [of "qdrant_client (ix_models ix)" 0 "batches (ix_batch_size ix) pts"]
  by (simp add: index_documents_def)

lemmas indexer_defs =
  embed_nodes_def node_point_def ex_indexer_def ex_models_def ex_client_def ex_nodes_def
  ex_node_points_def batch_ok_def

theorem index_documents_all_batches_witness:
  "embed_nodes ex_indexer ex_nodes = Inr ex_node_points \<and>
   batches (ix_batch_size ex_indexer) ex_node_points = [take 2 ex_node_points, drop 2 ex_node_points] \<and>
   (\<exists>failed. index_documents ex_indexer ex_nodes =
      Inr (False, (qdrant_client (ix_models ex_indexer))\<lparr>st_points := take 2 ex_node_points\<rparr>, failed))"
proof -
  have h: "embed_nodes ex_indexer ex_nodes = Inr ex_node_points"
    by (simp add: indexer_defs upt_rec)
  have b: "batches (ix_batch_size ex_indexer) ex_node_points =
      [take 2 ex_node_points, drop 2 ex_node_points]"
    by (simp add: ex_indexer_def ex_node_points_def)
  have ok1: "batch_ok (qdrant_client (ix_models ex_indexer)) (take 2 ex_node_points)"
    by (simp add: indexer_defs)
  have ok2: "\<not> batch_ok (qdrant_client (ix_models ex_indexer)) (drop 2 ex_node_points)"
    by (simp add: indexer_defs)
  from index_documents_all_batches [OF h] b ok1 ok2
  have "\<exists>failed. index_documents ex_indexer ex_nodes =
      Inr (False, (qdrant_client (ix_models ex_indexer))
            \<lparr>st_points := st_points (qdrant_client (ix_models ex_indexer)) @ take 2 ex_node_points\<rparr>,
           failed)"
    by simp
  moreover have "st_points (qdrant_client (ix_models ex_indexer)) = []"
    by (simp add: indexer_defs)
  ultimately show ?thesis using h b by simp
qed

subsection \<open>The indexing endpoint\<close>

lemma index_handler_status:
  "response_status (index_documents_handler deps files) = 200 \<or>
   response_status (index_documents_handler deps files) = 500"
  by (simp add: index_documents_handler_def response_status_def split: sum.splits)

lemma index_handler_success:
  assumes "index_documents_handler deps files = Inr r"
  shows "\<exists>names nodes err. save_uploads deps files = Inr names \<and>
           process_documents deps names = Inr (nodes, err) \<and>
           indexer_index_documents deps nodes = Inr True \<and>
           r = \<lparr> success = True, message = ''Documents processed and indexed successfully'',
                 document_count = Some (length nodes) \<rparr>"
  using assms
  by (auto simp: index_documents_handler_def index_body_def index_nodes_def
      split: sum.splits option.splits list.splits if_splits)

text \<open>An upload whose name has a directory part passes the suffix test and fails the write.\<close>

lemma index_handler_write_failure:
  "index_documents_handler ex_working [\<lparr>filename = Some ''sub/a.pdf''\<rparr>] =
     Inl (HTTPException 500 (StrOf FileNotFoundError))"
proof -
  have l: "lower ''sub/a.pdf'' = ''sub/a.pdf''" by code_simp
  show ?thesis
    by (simp add: index_documents_handler_def index_body_def endswith_def l ex_working_def)
qed

text \<open>
  C4 at concrete inputs. An upload named \<open>notes.txt\<close> raises the 400 inside the \<open>try\<close>
  block, the \<open>except\<close> clause turns it into a 500, and so it does with the 400 raised for
  a processing error; whatever the processor and the indexer are.
\<close>

theorem index_handler_non_pdf_is_500:
  "index_documents_handler deps [\<lparr>filename = Some ''notes.txt''\<rparr>] =
     Inl (HTTPException 500 (StrOf (HTTPException 400 (Detail ''File notes.txt is not a PDF'')))) \<and>
   response_status (index_documents_handler deps [\<lparr>filename = Some ''notes.txt''\<rparr>]) = 500 \<and>
   index_documents_handler ex_failing_processor [\<lparr>filename = Some ''a.pdf''\<rparr>] =
     Inl (HTTPException 500 (StrOf (HTTPException 400 (Detail ''No documents could be processed'')))) \<and>
   response_status (index_documents_handler ex_failing_processor [\<lparr>filename = Some ''a.pdf''\<rparr>]) = 500 \<and>
   index_documents_handler ex_working [\<lparr>filename = Some ''A.PDF''\<rparr>] =
     Inr \<lparr> success = True, message = ''Documents processed and indexed successfully'',
           document_count = Some 3 \<rparr>"
proof -
  have l: "lower ''notes.txt'' = ''notes.txt''" "lower ''a.pdf'' = ''a.pdf''"
    "lower ''A.PDF'' = ''a.pdf''"
    by code_simp+
  show ?thesis
    by (simp add: index_documents_handler_def index_body_def index_nodes_def response_status_def
        endswith_def l ex_failing_processor_def ex_working_def ex_nodes_def)
qed

end
